theory Spec2Isabelle
  imports Complex_Main
begin

section \<open>Python built-ins used by the parser\<close>

text \<open>
  A message is a Python \<open>str\<close>, a sequence of code points. It is modelled as a HOL
  \<open>string\<close> in which every \<open>char\<close> stands for one code point below 256; this
  covers every character of the token tables and patterns of \<open>parser.py\<close>
  (\<open>0xE8\<close>, \<open>0xE9\<close> and \<open>0xE0\<close> are the accented letters they use).
\<close>

definition code :: "char \<Rightarrow> nat" where
  "code c = of_char c"

definition isspace :: "char \<Rightarrow> bool" where
  \<comment> \<open>\<open>str.isspace\<close> on one code point below 256; also the class \<open>\s\<close> of \<open>re\<close>.\<close>
  "isspace c = (let n = code c in (9 \<le> n \<and> n \<le> 13) \<or> (28 \<le> n \<and> n \<le> 32) \<or> n = 133 \<or> n = 160)"

definition py_strip :: "string \<Rightarrow> string" where
  \<comment> \<open>\<open>str.strip()\<close>: leading and trailing whitespace removed.\<close>
  "py_strip s = rev (dropWhile isspace (rev (dropWhile isspace s)))"

definition lower_char :: "char \<Rightarrow> char" where
  \<comment> \<open>\<open>A\<close>..\<open>Z\<close> and the accented capitals \<open>0xC0\<close>..\<open>0xDE\<close> (not the sign \<open>0xD7\<close>) move by 32.\<close>
  "lower_char c = (let n = code c in
     if (65 \<le> n \<and> n \<le> 90) \<or> (192 \<le> n \<and> n \<le> 222 \<and> n \<noteq> 215) then char_of (n + 32) else c)"

definition py_lower :: "string \<Rightarrow> string" where
  "py_lower s = map lower_char s"

definition upper_char :: "char \<Rightarrow> nat list" where
  \<comment> \<open>\<open>str.upper()\<close> on one code point, as code points: the sharp s \<open>0xDF\<close> becomes
      \<open>SS\<close>, and \<open>0xB5\<close> and \<open>0xFF\<close> leave the range below 256.\<close>
  "upper_char c = (let n = code c in
     if (97 \<le> n \<and> n \<le> 122) \<or> (224 \<le> n \<and> n \<le> 254 \<and> n \<noteq> 247) then [n - 32]
     else if n = 223 then [83, 83]
     else if n = 181 then [924]
     else if n = 255 then [376]
     else [n])"

definition py_upper :: "string \<Rightarrow> nat list" where
  "py_upper s = concat (map upper_char s)"

fun startswith :: "'a list \<Rightarrow> 'a list \<Rightarrow> bool" where
  "startswith s [] = True"
| "startswith [] (t # ts) = False"
| "startswith (c # cs) (t # ts) = (c = t \<and> startswith cs ts)"

fun contains :: "'a list \<Rightarrow> 'a list \<Rightarrow> bool" where
  \<comment> \<open>\<open>token in message\<close>: the token occurs as a contiguous substring.\<close>
  "contains [] t = (t = [])"
| "contains (c # cs) t = (startswith (c # cs) t \<or> contains cs t)"

definition replace_comma :: "string \<Rightarrow> string" where
  \<comment> \<open>\<open>s.replace(",", ".")\<close>\<close>
  "replace_comma s = map (\<lambda>c. if c = CHR '','' then CHR ''.'' else c) s"

subsection \<open>Floating-point values of decimal literals\<close>

text \<open>
  \<open>float(s)\<close> returns the binary64 value nearest to the decimal literal \<open>s\<close>, ties to
  the even significand, and infinity from \<open>2^1024\<close> on. Only values that are not
  negative arise here; a finite one is kept as the rational number it denotes.
\<close>

datatype pyfloat = Finite rat | Infinity

definition pow2 :: "int \<Rightarrow> rat" where
  "pow2 e = (if 0 \<le> e then 2 ^ nat e else 1 / 2 ^ nat (- e))"

function bit_length :: "int \<Rightarrow> int" where
  \<comment> \<open>\<open>int.bit_length()\<close> of a number that is not negative\<close>
  "bit_length n = (if n \<le> 0 then 0 else 1 + bit_length (n div 2))"
  by pat_completeness auto
termination
  by (relation "measure nat") auto

declare bit_length.simps [simp del]

definition round_half_even :: "int \<Rightarrow> int \<Rightarrow> int" where
  \<comment> \<open>the integer nearest to \<open>a / b\<close>, ties to even\<close>
  "round_half_even a b = (let q = a div b; r = a mod b in
     if 2 * r < b then q else if b < 2 * r then q + 1 else if even q then q else q + 1)"

definition ulp_exponent :: "int \<Rightarrow> int \<Rightarrow> int" where
  \<comment> \<open>the exponent of the last place of the binary64 values around \<open>n / d\<close>: with
      \<open>2^e \<le> n / d < 2^(e+1)\<close> it is \<open>e - 52\<close>, and \<open>- 1074\<close> in the subnormal range\<close>
  "ulp_exponent n d =
     (let e0 = bit_length n - bit_length d;
          below = (if 0 \<le> e0 then n < d * 2 ^ nat e0 else n * 2 ^ nat (- e0) < d);
          e = (if below then e0 - 1 else e0)
      in max e (- 1022) - 52)"

definition significand :: "int \<Rightarrow> int \<Rightarrow> int" where
  \<comment> \<open>\<open>n / d\<close> in units of the last place, rounded\<close>
  "significand n d =
     (let u = ulp_exponent n d
      in if 0 \<le> u then round_half_even n (d * 2 ^ nat u)
         else round_half_even (n * 2 ^ nat (- u)) d)"

definition binary64 :: "int \<Rightarrow> int \<Rightarrow> pyfloat" where
  \<comment> \<open>the binary64 value nearest to \<open>n / d\<close>, for \<open>n \<ge> 0\<close> and \<open>d > 0\<close>\<close>
  "binary64 n d =
     (if n = 0 then Finite 0
      else let v = of_int (significand n d) * pow2 (ulp_exponent n d)
           in if 2 ^ 1024 \<le> v then Infinity else Finite v)"

definition is_digit :: "char \<Rightarrow> bool" where
  "is_digit c = (48 \<le> code c \<and> code c \<le> 57)"

fun digits_value :: "int \<Rightarrow> string \<Rightarrow> int" where
  "digits_value acc [] = acc"
| "digits_value acc (c # cs) = digits_value (10 * acc + (int (code c) - 48)) cs"

definition py_float :: "string \<Rightarrow> pyfloat option" where
  \<comment> \<open>\<open>float(s)\<close> for \<open>s\<close> of the shape digits, or digits \<open>.\<close> digits; \<open>None\<close> for every
      other string (among them those on which \<open>float\<close> raises \<open>ValueError\<close>).\<close>
  "py_float s = (let ip = takeWhile is_digit s; rest = dropWhile is_digit s in
     if ip = [] then None
     else (case rest of
         [] \<Rightarrow> Some (binary64 (digits_value 0 ip) 1)
       | c # fp \<Rightarrow>
           if c = CHR ''.'' \<and> fp \<noteq> [] \<and> list_all is_digit fp
           then Some (binary64 (digits_value 0 (ip @ fp)) (10 ^ length fp))
           else None))"

subsection \<open>Regular expressions of \<open>re\<close>\<close>

text \<open>
  The fragment of \<open>re\<close> that the three patterns use: a character class, sequence,
  ordered alternation, greedy repetition of a character class, and a capture group.
  \<open>matches r (s, g)\<close> lists the ways \<open>r\<close> matches a prefix of \<open>s\<close>, each as the rest
  of the input and the groups, in the order in which the backtracking matcher tries them:
  the alternatives from left to right, the longest repetition first.
\<close>

datatype 'a regex =
    RxEmpty
  | RxChar "'a \<Rightarrow> bool"
  | RxSeq "'a regex" "'a regex"
  | RxAlt "'a regex" "'a regex"
  | RxRepeat nat "nat option" "'a \<Rightarrow> bool"
  | RxGroup nat "'a regex"

type_synonym 'a groups = "nat \<Rightarrow> 'a list option"

fun matches :: "'a regex \<Rightarrow> 'a list \<times> 'a groups \<Rightarrow> ('a list \<times> 'a groups) list" where
  "matches RxEmpty st = [st]"
| "matches (RxChar p) (s, g) = (case s of [] \<Rightarrow> [] | c # cs \<Rightarrow> if p c then [(cs, g)] else [])"
| "matches (RxSeq r1 r2) st = concat (map (matches r2) (matches r1 st))"
| "matches (RxAlt r1 r2) st = matches r1 st @ matches r2 st"
| "matches (RxRepeat lo hi p) (s, g) =
     (let avail = length (takeWhile p s);
          n = (case hi of None \<Rightarrow> avail | Some h \<Rightarrow> min h avail)
      in map (\<lambda>j. (drop j s, g)) (rev [lo..<Suc n]))"
| "matches (RxGroup i r) (s, g) =
     map (\<lambda>(s', g'). (s', g'(i \<mapsto> take (length s - length s') s))) (matches r (s, g))"

fun search :: "'a regex \<Rightarrow> 'a list \<Rightarrow> 'a groups option" where
  \<comment> \<open>\<open>pattern.search(s)\<close>: the first match at the leftmost position that has one\<close>
  "search r [] = (case matches r ([], Map.empty) of [] \<Rightarrow> None | (_, g) # _ \<Rightarrow> Some g)"
| "search r (c # cs) =
     (case matches r (c # cs, Map.empty) of [] \<Rightarrow> search r cs | (_, g) # _ \<Rightarrow> Some g)"

definition optional :: "'a regex \<Rightarrow> 'a regex" where
  \<comment> \<open>\<open>(?:r)?\<close>, greedy: \<open>r\<close> is tried before the empty match\<close>
  "optional r = RxAlt r RxEmpty"

fun literal :: "string \<Rightarrow> char regex" where
  \<comment> \<open>a literal under \<open>re.IGNORECASE\<close>, written in lower case\<close>
  "literal [] = RxEmpty"
| "literal (c # cs) = RxSeq (RxChar (\<lambda>x. lower_char x = c)) (literal cs)"

definition is_letter :: "char \<Rightarrow> bool" where
  \<comment> \<open>\<open>[a-zA-Z]\<close>\<close>
  "is_letter c = ((65 \<le> code c \<and> code c \<le> 90) \<or> (97 \<le> code c \<and> code c \<le> 122))"

definition is_AZ :: "nat \<Rightarrow> bool" where
  \<comment> \<open>\<open>[A-Z]\<close>, on code points\<close>
  "is_AZ n = (65 \<le> n \<and> n \<le> 90)"

definition number :: "char regex" where
  \<comment> \<open>\<open>([0-9]+(?:[.,][0-9]+)?)\<close>\<close>
  "number = RxGroup 1 (RxSeq (RxRepeat 1 None is_digit)
     (optional (RxSeq (RxChar (\<lambda>c. c = CHR ''.'' \<or> c = CHR '','')) (RxRepeat 1 None is_digit))))"

section \<open>The parser of \<open>parser.py\<close>\<close>

record OrderInstruction =
  side :: string
  pair :: string
  quantity :: pyfloat
  order_type :: string
  price :: "pyfloat option"

text \<open>
  \<open>OrderParserError\<close> is the one exception class of the parser, told apart by its
  message. \<open>BuiltinError\<close> stands for an exception of a Python built-in that the parser
  does not catch (\<open>float\<close> rejecting its argument, a method called on a group that is
  \<open>None\<close>).
\<close>

datatype error = OrderParserError string | BuiltinError string

definition EmptyInstructionError :: error where
  "EmptyInstructionError = OrderParserError ''The instruction message is empty.''"

definition AmbiguousSideError :: error where
  "AmbiguousSideError = OrderParserError ''Could not determine whether the order is a buy or sell.''"

definition MissingPairError :: error where
  "MissingPairError = OrderParserError ''No trading pair detected in the instruction.''"

definition MissingQuantityError :: error where
  "MissingQuantityError = OrderParserError ''No quantity detected in the instruction.''"

definition MissingPriceError :: error where
  "MissingPriceError = OrderParserError
     ''No limit price found in the instruction while a limit order was requested.''"

definition BUY_TOKENS :: "string list" where
  "BUY_TOKENS = [''buy'', [CHR ''a'', CHR ''c'', CHR ''h'', CHR 0xE8, CHR ''t'', CHR ''e''],
     ''achete'', ''achat'']"

definition SELL_TOKENS :: "string list" where
  "SELL_TOKENS = [''sell'', ''vends'', ''vendre'', ''vend'', ''revends'', ''revendre'']"

definition LIMIT_TOKENS :: "string list" where
  "LIMIT_TOKENS = [''limit'', ''limite'']"

definition MARKET_TOKENS :: "string list" where
  "MARKET_TOKENS = [''market'', [CHR ''m'', CHR ''a'', CHR ''r'', CHR ''c'', CHR ''h'', CHR 0xE9],
     ''marche'']"

definition PAIR_PATTERN :: "nat regex" where
  \<comment> \<open>\<open>([A-Z]{3,5})(?:[/\-]|)([A-Z]{3,5})\<close>; 47 and 45 are \<open>/\<close> and \<open>-\<close>\<close>
  "PAIR_PATTERN = RxSeq (RxGroup 1 (RxRepeat 3 (Some 5) is_AZ))
     (RxSeq (RxAlt (RxChar (\<lambda>n. n = 47 \<or> n = 45)) RxEmpty)
        (RxGroup 2 (RxRepeat 3 (Some 5) is_AZ)))"

definition PRICE_PATTERN :: "char regex" where
  \<comment> \<open>\<open>(?:at|\<close>\<open>0xE0\<close>\<open>)\s+([0-9]+(?:[.,][0-9]+)?)\<close>, ignoring case\<close>
  "PRICE_PATTERN = RxSeq (RxAlt (literal ''at'') (literal [CHR 0xE0]))
     (RxSeq (RxRepeat 1 None isspace) number)"

definition action_token :: "char regex" where
  \<comment> \<open>\<open>(?:buy|sell|ach(?:\<close>\<open>0xE8\<close>\<open>|e)te|achat|vend(?:re|s)?)\<close>, ignoring case\<close>
  "action_token = RxAlt (literal ''buy'') (RxAlt (literal ''sell'')
     (RxAlt (RxSeq (literal ''ach'') (RxSeq (RxAlt (literal [CHR 0xE8]) (literal ''e'')) (literal ''te'')))
     (RxAlt (literal ''achat'')
        (RxSeq (literal ''vend'') (optional (RxAlt (literal ''re'') (literal ''s'')))))))"

definition QUANTITY_PATTERN :: "char regex" where
  \<comment> \<open>action token, \<open>[\s:]+\<close>, \<open>(?:[a-zA-Z]+\s+)?\<close>, number\<close>
  "QUANTITY_PATTERN = RxSeq action_token
     (RxSeq (RxRepeat 1 None (\<lambda>c. isspace c \<or> c = CHR '':''))
     (RxSeq (optional (RxSeq (RxRepeat 1 None is_letter) (RxRepeat 1 None isspace)))
        number))"

fun any_token :: "string list \<Rightarrow> string \<Rightarrow> bool" where
  \<comment> \<open>\<open>for token in tokens: if token in message: ...\<close>: some token occurs in the message\<close>
  "any_token [] message = False"
| "any_token (token # tokens) message = (contains message token \<or> any_token tokens message)"

definition extract_side :: "string \<Rightarrow> error + string" where
  "extract_side message =
     (if any_token BUY_TOKENS message then Inr ''buy''
      else if any_token SELL_TOKENS message then Inr ''sell''
      else Inl AmbiguousSideError)"

definition extract_order_type :: "string \<Rightarrow> string" where
  "extract_order_type message =
     (if any_token LIMIT_TOKENS message then ''limit''
      else if any_token MARKET_TOKENS message then ''market''
      else ''market'')"

definition group_text :: "nat list option \<Rightarrow> string" where
  \<comment> \<open>a group in an f-string: its text, or \<open>None\<close> when it took no part in the match\<close>
  "group_text x = (case x of None \<Rightarrow> ''None'' | Some t \<Rightarrow> map char_of t)"

definition extract_pair :: "string \<Rightarrow> error + string" where
  "extract_pair message =
     (case search PAIR_PATTERN (py_upper message) of
        None \<Rightarrow> Inl MissingPairError
      | Some g \<Rightarrow> Inr (group_text (g 1) @ ''_'' @ group_text (g 2)))"

definition float_of_group :: "string option \<Rightarrow> error + pyfloat" where
  \<comment> \<open>\<open>float(match.group(1).replace(",", "."))\<close>\<close>
  "float_of_group x =
     (case x of
        None \<Rightarrow> Inl (BuiltinError ''AttributeError'')
      | Some t \<Rightarrow> (case py_float (replace_comma t) of
            None \<Rightarrow> Inl (BuiltinError ''ValueError'')
          | Some v \<Rightarrow> Inr v))"

definition extract_price :: "string \<Rightarrow> error + pyfloat option" where
  "extract_price message =
     (case search PRICE_PATTERN message of
        None \<Rightarrow> Inr None
      | Some g \<Rightarrow> (case float_of_group (g 1) of Inl e \<Rightarrow> Inl e | Inr v \<Rightarrow> Inr (Some v)))"

definition extract_quantity :: "string \<Rightarrow> error + pyfloat" where
  "extract_quantity message =
     (case search QUANTITY_PATTERN message of
        None \<Rightarrow> Inl MissingQuantityError
      | Some g \<Rightarrow> float_of_group (g 1))"

definition parse :: "string \<Rightarrow> error + OrderInstruction" where
  "parse message =
     (let normalized = py_strip message in
      if normalized = [] then Inl EmptyInstructionError
      else
        (let lower_message = py_lower normalized in
         (case extract_side lower_message of
            Inl e \<Rightarrow> Inl e
          | Inr sd \<Rightarrow>
             (let ot = extract_order_type lower_message in
              (case extract_pair normalized of
                 Inl e \<Rightarrow> Inl e
               | Inr pr \<Rightarrow>
                  (case extract_quantity lower_message of
                     Inl e \<Rightarrow> Inl e
                   | Inr qty \<Rightarrow>
                      (case (if ot = ''limit'' then extract_price lower_message else Inr None) of
                         Inl e \<Rightarrow> Inl e
                       | Inr prc \<Rightarrow>
                          (if ot = ''limit'' \<and> prc = None then Inl MissingPriceError
                           else Inr \<lparr>side = sd, pair = pr, quantity = qty,
                                     order_type = ot, price = prc\<rparr>))))))))"

subsection \<open>The payload\<close>

datatype pyval = PyInt int | PyStr string | PyFloat pyfloat | PyNone
  | PyDict "(string \<times> pyval) list"

definition as_payload :: "OrderInstruction \<Rightarrow> int \<Rightarrow> pyval" where
  \<comment> \<open>a dict is the list of its items, in insertion order\<close>
  "as_payload self account_id =
     (let position = [(''type'', PyStr (if order_type self = ''market'' then ''market'' else ''limit'')),
                      (''units'', PyDict [(''value'', PyFloat (quantity self))])];
          position' = (if order_type self = ''limit''
            then position @ [(''price'', PyDict [(''value'',
                   (case price self of None \<Rightarrow> PyNone | Some p \<Rightarrow> PyFloat p))])]
            else position)
      in PyDict [(''account_id'', PyInt account_id), (''pair'', PyStr (pair self)),
                 (''position'', PyDict position')])"

definition dict_get :: "pyval \<Rightarrow> string \<Rightarrow> pyval option" where
  \<comment> \<open>\<open>d.get(k)\<close> on a dict, \<open>None\<close> for a missing key or a value that is no dict\<close>
  "dict_get v k = (case v of PyDict items \<Rightarrow> map_of items k | _ \<Rightarrow> None)"

definition dict_keys :: "pyval \<Rightarrow> string list" where
  "dict_keys v = (case v of PyDict items \<Rightarrow> map fst items | _ \<Rightarrow> [])"

fun dict_path :: "pyval \<Rightarrow> string list \<Rightarrow> pyval option" where
  \<comment> \<open>the value under a path of nested keys, as in \<open>position.units.value\<close>\<close>
  "dict_path v [] = Some v"
| "dict_path v (k # ks) = (case dict_get v k of None \<Rightarrow> None | Some w \<Rightarrow> dict_path w ks)"

definition numeric :: "string \<Rightarrow> bool" where
  \<comment> \<open>the shape of \<open>[0-9]+(?:[.,][0-9]+)?\<close>: digits, or digits, a separator, digits\<close>
  "numeric t = (let ip = takeWhile is_digit t; rest = dropWhile is_digit t in
     ip \<noteq> [] \<and> (case rest of [] \<Rightarrow> True
       | c # fp \<Rightarrow> (c = CHR ''.'' \<or> c = CHR '','') \<and> fp \<noteq> [] \<and> list_all is_digit fp))"

section \<open>Properties of the matcher\<close>

lemma matches_Seq_iff:
  "out \<in> set (matches (RxSeq r1 r2) st) \<longleftrightarrow> (\<exists>mid \<in> set (matches r1 st). out \<in> set (matches r2 mid))"
  by auto

lemma matches_Alt_iff:
  "out \<in> set (matches (RxAlt r1 r2) st) \<longleftrightarrow> out \<in> set (matches r1 st) \<or> out \<in> set (matches r2 st)"
  by auto

lemma matches_Char_iff:
  "(s', g') \<in> set (matches (RxChar p) (s, g)) \<longleftrightarrow> (\<exists>c. s = c # s' \<and> p c \<and> g' = g)"
  by (auto split: list.splits if_splits)

lemma matches_Repeat_iff:
  "(s', g') \<in> set (matches (RxRepeat lo hi p) (s, g)) \<longleftrightarrow>
     g' = g \<and> (\<exists>j. lo \<le> j \<and> j \<le> length (takeWhile p s) \<and> (case hi of None \<Rightarrow> True | Some h \<Rightarrow> j \<le> h) \<and> s' = drop j s)"
proof -
  define n where "n = (case hi of None \<Rightarrow> length (takeWhile p s) | Some h \<Rightarrow> min h (length (takeWhile p s)))"
  have bound: "j < Suc n \<longleftrightarrow> j \<le> length (takeWhile p s) \<and> (case hi of None \<Rightarrow> True | Some h \<Rightarrow> j \<le> h)" for j
    by (cases hi) (auto simp: n_def)
  have "set (matches (RxRepeat lo hi p) (s, g)) = (\<lambda>j. (drop j s, g)) ` {lo..<Suc n}"
    by (simp add: Let_def n_def del: upt_Suc)
  then have "(s', g') \<in> set (matches (RxRepeat lo hi p) (s, g)) \<longleftrightarrow>
      (\<exists>j. lo \<le> j \<and> j < Suc n \<and> s' = drop j s \<and> g' = g)"
    by (auto simp: image_iff)
  then show ?thesis unfolding bound by blast
qed

lemma matches_Group_iff:
  "(s', g') \<in> set (matches (RxGroup i r) (s, g)) \<longleftrightarrow>
     (\<exists>g0. (s', g0) \<in> set (matches r (s, g)) \<and> g' = g0(i \<mapsto> take (length s - length s') s))"
  by (force simp: image_iff)

lemma matches_suffix:
  "(s', g') \<in> set (matches r (s, g)) \<Longrightarrow> \<exists>t. s = t @ s'"
proof (induction r arbitrary: s g s' g')
  case RxEmpty
  then show ?case by simp
next
  case (RxChar p)
  then show ?case by (auto simp: matches_Char_iff)
next
  case (RxSeq r1 r2)
  then obtain m gm where m: "(m, gm) \<in> set (matches r1 (s, g))" "(s', g') \<in> set (matches r2 (m, gm))"
    by (auto simp del: matches.simps simp: matches_Seq_iff)
  from RxSeq.IH(1)[OF m(1)] RxSeq.IH(2)[OF m(2)] show ?case by auto
next
  case (RxAlt r1 r2)
  then show ?case by (auto simp del: matches.simps simp: matches_Alt_iff)
next
  case (RxRepeat lo hi p)
  then have "\<exists>j. s' = drop j s" by (auto simp: matches_Repeat_iff simp del: matches.simps)
  then obtain j where "s' = drop j s" ..
  then have "s = take j s @ s'" by simp
  then show ?case ..
next
  case (RxGroup i r)
  then show ?case by (auto simp del: matches.simps simp: matches_Group_iff)
qed


declare matches.simps [simp del]

lemma search_None_iff:
  "search r s = None \<longleftrightarrow> (\<forall>i \<le> length s. matches r (drop i s, Map.empty) = [])"
proof (induction s)
  case Nil
  then show ?case by (auto split: list.splits)
next
  case (Cons c cs)
  have "(\<forall>i \<le> length (c # cs). matches r (drop i (c # cs), Map.empty) = [])
      \<longleftrightarrow> matches r (c # cs, Map.empty) = [] \<and> (\<forall>i \<le> length cs. matches r (drop i cs, Map.empty) = [])"
    (is "?L \<longleftrightarrow> ?R")
  proof
    assume l: ?L
    have "matches r (drop 0 (c # cs), Map.empty) = []" using l by blast
    moreover have "matches r (drop i cs, Map.empty) = []" if "i \<le> length cs" for i
      using l [rule_format, of "Suc i"] that by simp
    ultimately show ?R by simp
  next
    assume r: ?R
    show ?L
    proof (intro allI impI)
      fix i assume "i \<le> length (c # cs)"
      then show "matches r (drop i (c # cs), Map.empty) = []"
        using r by (cases i) auto
    qed
  qed
  with Cons.IH show ?case by (auto split: list.splits)
qed

lemma search_SomeD:
  "search r s = Some g \<Longrightarrow>
     \<exists>pre rest s' more. s = pre @ rest \<and> matches r (rest, Map.empty) = (s', g) # more \<and>
       (\<forall>i < length pre. matches r (drop i s, Map.empty) = [])"
proof (induction s)
  case Nil
  then have "\<exists>s' more. matches r ([], Map.empty) = (s', g) # more"
    by (auto split: list.splits)
  then show ?case by auto
next
  case (Cons c cs)
  show ?case
  proof (cases "matches r (c # cs, Map.empty)")
    case Nil
    with Cons.prems have "search r cs = Some g" by simp
    from Cons.IH [OF this] obtain pre rest s' more where
      h: "cs = pre @ rest" "matches r (rest, Map.empty) = (s', g) # more"
         "\<forall>i < length pre. matches r (drop i cs, Map.empty) = []"
      by blast
    have "\<forall>i < length (c # pre). matches r (drop i (c # cs), Map.empty) = []"
    proof (intro allI impI)
      fix i assume "i < length (c # pre)"
      then show "matches r (drop i (c # cs), Map.empty) = []"
        using h(3) Nil by (cases i) auto
    qed
    moreover have "c # cs = (c # pre) @ rest" using h(1) by simp
    ultimately show ?thesis using h(2) by blast
  next
    case (Cons a more)
    with Cons.prems have "matches r (c # cs, Map.empty) = (fst a, g) # more"
      by (cases a) auto
    moreover have "c # cs = [] @ (c # cs)" by simp
    ultimately show ?thesis by (metis length_0_conv list.size(3) not_less_zero)
  qed
qed

lemma not_digit_sep [simp]: "\<not> is_digit CHR ''.''" "\<not> is_digit CHR '',''"
  by (simp_all add: is_digit_def code_def)

lemma numeric_digits:
  "t \<noteq> [] \<Longrightarrow> list_all is_digit t \<Longrightarrow> numeric t"
  by (simp add: numeric_def Let_def list_all_iff takeWhile_eq_all_conv[THEN iffD2] dropWhile_eq_Nil_conv[THEN iffD2])

lemma numeric_fraction:
  assumes "ip \<noteq> []" "list_all is_digit ip" "c = CHR ''.'' \<or> c = CHR '',''" "fp \<noteq> []" "list_all is_digit fp"
  shows "numeric (ip @ c # fp)"
proof -
  have nd: "\<not> is_digit c" using assms(3) by auto
  have "takeWhile is_digit (ip @ c # fp) = ip"
    using assms(2) nd by (simp add: list_all_iff takeWhile_append2 )
  moreover have "dropWhile is_digit (ip @ c # fp) = c # fp"
    using assms(2) nd by (simp add: list_all_iff dropWhile_append2)
  ultimately show ?thesis using assms by (simp add: numeric_def Let_def)
qed

lemma take_takeWhile_all:
  "j \<le> length (takeWhile p s) \<Longrightarrow> list_all p (take j s)"
proof (induction s arbitrary: j)
  case Nil
  then show ?case by simp
next
  case (Cons c cs)
  then show ?case by (cases j) (auto split: if_splits)
qed

lemma matches_optional_iff:
  "out \<in> set (matches (optional r) st) \<longleftrightarrow> out \<in> set (matches r st) \<or> out = st"
  by (simp add: optional_def matches_Alt_iff matches.simps(1))

lemma matches_digits_iff:
  "(s', g') \<in> set (matches (RxRepeat 1 None p) (s, g)) \<longleftrightarrow>
     g' = g \<and> (\<exists>j. 1 \<le> j \<and> j \<le> length (takeWhile p s) \<and> s' = drop j s)"
  by (simp add: matches_Repeat_iff)


lemma matches_number:
  assumes "(s', g') \<in> set (matches number (s, g))"
  shows "\<exists>t. s = t @ s' \<and> g' = g(1 \<mapsto> t) \<and> numeric t"
proof -
  let ?sep = "\<lambda>c. c = CHR ''.'' \<or> c = CHR '',''"
  let ?frac = "RxSeq (RxChar ?sep) (RxRepeat 1 None is_digit)"
  let ?body = "RxSeq (RxRepeat 1 None is_digit) (optional ?frac)"
  from assms have "(s', g') \<in> set (matches (RxGroup 1 ?body) (s, g))"
    by (simp only: number_def)
  then obtain g0 where g0: "(s', g0) \<in> set (matches ?body (s, g))"
    and g': "g' = g0(1 \<mapsto> take (length s - length s') s)"
    by (subst (asm) matches_Group_iff) blast
  from matches_suffix [OF g0] obtain t where t: "s = t @ s'" by blast
  then have tk: "take (length s - length s') s = t" by simp
  from g0 obtain mid where
    m: "mid \<in> set (matches (RxRepeat 1 None is_digit) (s, g))" and
    o: "(s', g0) \<in> set (matches (optional ?frac) mid)"
    by (subst (asm) matches_Seq_iff) blast
  obtain m gm where mid: "mid = (m, gm)" by (cases mid)
  from m [unfolded mid matches_digits_iff]
  obtain j where j: "1 \<le> j" "j \<le> length (takeWhile is_digit s)" "m = drop j s" "gm = g"
    by blast
  have ip: "list_all is_digit (take j s)" "take j s \<noteq> []"
    using take_takeWhile_all [OF j(2)] j(1) j(2) by auto
  from o mid have "(s', g0) \<in> set (matches ?frac (m, gm)) \<or> (s', g0) = (m, gm)"
    by (simp only: matches_optional_iff)
  then show ?thesis
  proof
    assume "(s', g0) = (m, gm)"
    then have e: "s' = drop j s" "g0 = g" using j by auto
    have "s = take j s @ s'" using e(1) by simp
    with t have "t = take j s" by (metis append_same_eq)
    with ip have "numeric t" by (simp add: numeric_digits)
    with t g' tk e(2) show ?thesis by auto
  next
    assume "(s', g0) \<in> set (matches ?frac (m, gm))"
    then obtain mid2 where
      c: "mid2 \<in> set (matches (RxChar ?sep) (m, gm))" and
      f: "(s', g0) \<in> set (matches (RxRepeat 1 None is_digit) mid2)"
      by (subst (asm) matches_Seq_iff) blast
    obtain m2 g2 where mid2: "mid2 = (m2, g2)" by (cases mid2)
    from c [unfolded mid2 matches_Char_iff]
    obtain ch where ch: "m = ch # m2" "ch = CHR ''.'' \<or> ch = CHR '',''" "g2 = gm"
      by blast
    from f [unfolded mid2 matches_digits_iff]
    obtain k where k: "1 \<le> k" "k \<le> length (takeWhile is_digit m2)" "s' = drop k m2" "g0 = g2"
      by blast
    have fp: "list_all is_digit (take k m2)" "take k m2 \<noteq> []"
      using take_takeWhile_all [OF k(2)] k(1) k(2) by auto
    have "s = take j s @ drop j s" by simp
    also have "drop j s = ch # m2" using j(3) ch(1) by simp
    also have "m2 = take k m2 @ s'" using k(3) by simp
    finally have "s = (take j s @ ch # take k m2) @ s'" by simp
    with t have "t = take j s @ ch # take k m2" by (metis append_same_eq)
    with ip fp ch(2) have "numeric t" by (simp add: numeric_fraction)
    with t g' tk k(4) ch(3) j(4) show ?thesis by auto
  qed
qed

lemma replace_comma_digits:
  "list_all is_digit t \<Longrightarrow> replace_comma t = t"
  by (induction t) (auto simp: replace_comma_def)

lemma py_float_digits:
  assumes "ip \<noteq> []" "list_all is_digit ip"
  shows "py_float ip = Some (binary64 (digits_value 0 ip) 1)"
proof -
  have tw: "takeWhile is_digit ip = ip" and dw: "dropWhile is_digit ip = []"
    using assms(2) by (simp_all add: list_all_iff)
  show ?thesis unfolding py_float_def Let_def tw dw using assms(1) by simp
qed

lemma py_float_fraction:
  assumes "ip \<noteq> []" "list_all is_digit ip" "fp \<noteq> []" "list_all is_digit fp"
  shows "py_float (ip @ CHR ''.'' # fp) = Some (binary64 (digits_value 0 (ip @ fp)) (10 ^ length fp))"
proof -
  have tw: "takeWhile is_digit (ip @ CHR ''.'' # fp) = ip"
    using assms(2) by (simp add: list_all_iff takeWhile_append2)
  have dw: "dropWhile is_digit (ip @ CHR ''.'' # fp) = CHR ''.'' # fp"
    using assms(2) by (simp add: list_all_iff dropWhile_append2)
  show ?thesis unfolding py_float_def Let_def tw dw using assms(1,3,4) by simp
qed

lemma py_float_numeric:
  assumes "numeric t"
  shows "\<exists>v. py_float (replace_comma t) = Some v"
proof -
  define ip where "ip = takeWhile is_digit t"
  define rest where "rest = dropWhile is_digit t"
  have t: "t = ip @ rest" by (simp add: ip_def rest_def)
  have ipd: "list_all is_digit ip" by (auto simp: ip_def list_all_iff dest: set_takeWhileD)
  from assms have ne: "ip \<noteq> []" by (simp add: numeric_def Let_def ip_def)
  show ?thesis
  proof (cases rest)
    case Nil
    with t ipd have "replace_comma t = ip" by (simp add: replace_comma_digits)
    then show ?thesis using py_float_digits [OF ne ipd] by simp
  next
    case (Cons c fp)
    with assms have c: "c = CHR ''.'' \<or> c = CHR '',''" and fp: "fp \<noteq> []" "list_all is_digit fp"
      by (simp_all add: numeric_def Let_def rest_def [symmetric])
    have "replace_comma (ip @ c # fp) = replace_comma ip @ CHR ''.'' # replace_comma fp"
      using c by (auto simp: replace_comma_def)
    then have "replace_comma t = ip @ CHR ''.'' # fp"
      using t Cons ipd fp(2) by (simp add: replace_comma_digits)
    then show ?thesis using py_float_fraction [OF ne ipd fp] by simp
  qed
qed

lemma round_half_even_nonneg:
  "0 \<le> a \<Longrightarrow> 0 < b \<Longrightarrow> 0 \<le> round_half_even a b"
  by (auto simp: round_half_even_def Let_def pos_imp_zdiv_nonneg_iff)

lemma pow2_pos: "0 < pow2 e"
  by (simp add: pow2_def)

lemma significand_nonneg:
  assumes "0 \<le> n" "0 < d"
  shows "0 \<le> significand n d"
proof -
  have "0 \<le> round_half_even n (d * 2 ^ nat u)" for u
    using assms by (intro round_half_even_nonneg) auto
  moreover have "0 \<le> round_half_even (n * 2 ^ nat (- u)) d" for u
    using assms by (intro round_half_even_nonneg) auto
  ultimately show ?thesis by (simp add: significand_def Let_def)
qed

lemma binary64_nonneg:
  assumes "0 \<le> n" "0 < d" "binary64 n d = Finite v"
  shows "0 \<le> v"
proof (cases "n = 0")
  case True
  with assms show ?thesis by (simp add: binary64_def)
next
  case False
  with assms(3) have "v = of_int (significand n d) * pow2 (ulp_exponent n d)"
    by (simp add: binary64_def Let_def split: if_splits)
  then show ?thesis
    using significand_nonneg [OF assms(1,2)] pow2_pos [of "ulp_exponent n d"]
    by (simp add: zero_le_mult_iff less_imp_le)
qed

lemma digits_value_nonneg:
  "0 \<le> acc \<Longrightarrow> list_all is_digit s \<Longrightarrow> 0 \<le> digits_value acc s"
  by (induction s arbitrary: acc) (auto simp: is_digit_def)

lemma py_float_nonneg:
  assumes "py_float s = Some (Finite v)"
  shows "0 \<le> v"
proof -
  have ipd: "list_all is_digit (takeWhile is_digit s)" by (auto simp: list_all_iff dest: set_takeWhileD)
  show ?thesis
  proof (cases "dropWhile is_digit s")
    case Nil
    with assms have b: "binary64 (digits_value 0 (takeWhile is_digit s)) 1 = Finite v"
      by (simp add: py_float_def Let_def split: if_splits)
    have "0 \<le> digits_value 0 (takeWhile is_digit s)"
      using ipd by (intro digits_value_nonneg) auto
    from binary64_nonneg [OF this _ b] show ?thesis by simp
  next
    case (Cons c fp)
    with assms have b: "binary64 (digits_value 0 (takeWhile is_digit s @ fp)) (10 ^ length fp) = Finite v"
      and fp: "list_all is_digit fp"
      by (simp_all add: py_float_def Let_def split: if_splits)
    have "0 \<le> digits_value 0 (takeWhile is_digit s @ fp)"
      using ipd fp by (intro digits_value_nonneg) auto
    from binary64_nonneg [OF this _ b] show ?thesis by simp
  qed
qed

section \<open>Properties of the parser\<close>

lemma parse_Inr_iff:
  "parse message = Inr ord \<longleftrightarrow>
     py_strip message \<noteq> [] \<and>
     extract_side (py_lower (py_strip message)) = Inr (side ord) \<and>
     extract_pair (py_strip message) = Inr (pair ord) \<and>
     extract_quantity (py_lower (py_strip message)) = Inr (quantity ord) \<and>
     order_type ord = extract_order_type (py_lower (py_strip message)) \<and>
     (if order_type ord = ''limit''
      then price ord \<noteq> None \<and> extract_price (py_lower (py_strip message)) = Inr (price ord)
      else price ord = None)"
  by (cases ord) (auto simp: parse_def Let_def split: sum.splits)

section \<open>The payload builder\<close>

text \<open>
  C7. For an order whose type is \<open>market\<close> or \<open>limit\<close> and any account identifier, the
  payload has exactly the keys \<open>account_id\<close>, \<open>pair\<close> and \<open>position\<close>; \<open>position.type\<close>
  is the order's type, \<open>position.units.value\<close> its quantity; the position has a \<open>price\<close>
  block, carrying the order's price, if and only if the type is \<open>limit\<close>, and a market
  order's position has the keys \<open>type\<close> and \<open>units\<close> only.
\<close>

theorem as_payload_wire_shape:
  assumes "order_type ord = ''market'' \<or> order_type ord = ''limit''"
  shows "dict_keys (as_payload ord account_id) = [''account_id'', ''pair'', ''position'']
       \<and> dict_path (as_payload ord account_id) [''account_id''] = Some (PyInt account_id)
       \<and> dict_path (as_payload ord account_id) [''pair''] = Some (PyStr (pair ord))
       \<and> dict_path (as_payload ord account_id) [''position'', ''type'']
           = Some (PyStr (order_type ord))
       \<and> dict_path (as_payload ord account_id) [''position'', ''units'']
           = Some (PyDict [(''value'', PyFloat (quantity ord))])
       \<and> (dict_path (as_payload ord account_id) [''position'', ''price''] \<noteq> None
            \<longleftrightarrow> order_type ord = ''limit'')
       \<and> (order_type ord = ''limit'' \<longrightarrow>
            dict_path (as_payload ord account_id) [''position'', ''price'']
              = Some (PyDict [(''value'', (case price ord of None \<Rightarrow> PyNone | Some p \<Rightarrow> PyFloat p))])
            \<and> map_option dict_keys (dict_path (as_payload ord account_id) [''position''])
              = Some [''type'', ''units'', ''price''])
       \<and> (order_type ord = ''market'' \<longrightarrow>
            map_option dict_keys (dict_path (as_payload ord account_id) [''position''])
              = Some [''type'', ''units''])"
  using assms by (auto simp: as_payload_def dict_get_def dict_keys_def Let_def)

theorem as_payload_wire_shape_witness:
  "(order_type \<lparr>side = ''buy'', pair = ''BTC_USDT'', quantity = Finite 2, order_type = ''limit'',
       price = Some (Finite 100)\<rparr> = ''limit'')
   \<and> dict_path (as_payload \<lparr>side = ''buy'', pair = ''BTC_USDT'', quantity = Finite 2,
        order_type = ''limit'', price = Some (Finite 100)\<rparr> 7) [''position'', ''price'']
      = Some (PyDict [(''value'', PyFloat (Finite 100))])
   \<and> dict_path (as_payload \<lparr>side = ''buy'', pair = ''BTC_USDT'', quantity = Finite 2,
        order_type = ''limit'', price = Some (Finite 100)\<rparr> 7) [''position'', ''units'']
      = Some (PyDict [(''value'', PyFloat (Finite 2))])"
proof -
  let ?ord = "\<lparr>side = ''buy'', pair = ''BTC_USDT'', quantity = Finite 2, order_type = ''limit'',
       price = Some (Finite 100)\<rparr>"
  have h: "order_type ?ord = ''market'' \<or> order_type ?ord = ''limit''" by simp
  from as_payload_wire_shape [OF h, of 7] show ?thesis
    by (simp del: dict_path.simps)
qed

end
